theory Spec2Isabelle
  imports Complex_Main
begin

section \<open>Data model of the Picarro processor\<close>

text \<open>
  The embedding follows \<^verbatim>\<open>summit_picarro.py\<close> and \<^verbatim>\<open>picarro_main_loop.py\<close>.
  Timestamps are seconds since the epoch (the \<^verbatim>\<open>EPOCH_TIME\<close> column), measured values are
  the floats of the source read as exact real numbers. A Python exception is the \<open>Inl\<close> side of
  a sum.
\<close>

type_synonym timestamp = real

datatype py_error =
  IndexError | AttributeError | TypeError | ZeroDivisionError | StatisticsError

datatype compound = CO | CO2 | CH4

definition e_bind :: "py_error + 'a \<Rightarrow> ('a \<Rightarrow> py_error + 'b) \<Rightarrow> py_error + 'b" where
  "e_bind r f = (case r of Inl e \<Rightarrow> Inl e | Inr v \<Rightarrow> f v)"

text \<open>
  A row of the table \<^verbatim>\<open>data\<close>. The alarm status and the cavity and temperature diagnostics
  are carried by the source and read by none of the functions below; they are left out.
\<close>

record Datum =
  datum_id :: nat
  datum_date :: timestamp
  instrument_status :: int
  mpv_position :: real
  co :: real
  co2 :: real
  ch4 :: real
  file_id :: "nat option"
  cal_id :: "nat option"

text \<open>The JSON result of one compound: \<^verbatim>\<open>{'mean': x, 'median': x, 'stdev': x}\<close>.\<close>

record result =
  mean :: "real option"
  median :: "real option"
  stdev :: "real option"

record CalEvent =
  cal_event_id :: nat
  date :: timestamp
  data :: "Datum list"
  standard_used :: string
  co_result :: "result option"
  co2_result :: "result option"
  ch4_result :: "result option"
  back_period :: "real option"
  mastercal_id :: "nat option"

definition dates :: "CalEvent \<Rightarrow> timestamp list" where
  "dates self = map datum_date (data self)"

text \<open>\<^verbatim>\<open>getattr(self, compound)\<close>: the properties \<^verbatim>\<open>co\<close>, \<^verbatim>\<open>co2\<close>, \<^verbatim>\<open>ch4\<close> of a CalEvent.\<close>

fun compound_values :: "CalEvent \<Rightarrow> compound \<Rightarrow> real list" where
  "compound_values self CO = map co (data self)"
| "compound_values self CO2 = map co2 (data self)"
| "compound_values self CH4 = map ch4 (data self)"

text \<open>\<^verbatim>\<open>getattr(self, compound + '_result')\<close> and the matching \<^verbatim>\<open>setattr\<close>.\<close>

fun get_result :: "CalEvent \<Rightarrow> compound \<Rightarrow> result option" where
  "get_result self CO = co_result self"
| "get_result self CO2 = co2_result self"
| "get_result self CH4 = ch4_result self"

fun set_result :: "CalEvent \<Rightarrow> compound \<Rightarrow> result \<Rightarrow> CalEvent" where
  "set_result self CO r = self\<lparr>co_result := Some r\<rparr>"
| "set_result self CO2 r = self\<lparr>co2_result := Some r\<rparr>"
| "set_result self CH4 r = self\<lparr>ch4_result := Some r\<rparr>"

text \<open>
  \<^verbatim>\<open>CalEvent.__init__\<close>: the date of an event is the last timestamp of the data it is given,
  in the order given; \<^verbatim>\<open>self.dates[-1]\<close> raises on an empty list. The key and the columns
  not set by the constructor start empty.
\<close>

definition CalEvent_init :: "Datum list \<Rightarrow> string \<Rightarrow> py_error + CalEvent" where
  "CalEvent_init event_data standard =
     (if event_data = [] then Inl IndexError
      else Inr \<lparr>cal_event_id = 0, date = datum_date (last event_data), data = event_data,
                standard_used = standard, co_result = None, co2_result = None,
                ch4_result = None, back_period = None, mastercal_id = None\<rparr>)"

text \<open>The event the constructor builds from data that is not empty.\<close>

definition event_of :: "Datum list \<Rightarrow> string \<Rightarrow> CalEvent" where
  "event_of event_data standard =
     \<lparr>cal_event_id = 0, date = datum_date (last event_data), data = event_data,
      standard_used = standard, co_result = None, co2_result = None,
      ch4_result = None, back_period = None, mastercal_id = None\<rparr>"

record MasterCal =
  subcals :: "CalEvent list"
  co_slope :: "real option"
  co_intercept :: "real option"
  co_middle_offset :: "real option"
  co2_slope :: "real option"
  co2_intercept :: "real option"
  co2_middle_offset :: "real option"
  ch4_slope :: "real option"
  ch4_intercept :: "real option"
  ch4_middle_offset :: "real option"

text \<open>
  \<^verbatim>\<open>MasterCal.__init__\<close>: the new object, with the events given as its subcals. What the
  assignment does to a MasterCal that held one of the events is \<open>release\<close> below.
\<close>

definition MasterCal_init :: "CalEvent list \<Rightarrow> MasterCal" where
  "MasterCal_init standards_given =
     \<lparr>subcals = standards_given, co_slope = None, co_intercept = None, co_middle_offset = None,
      co2_slope = None, co2_intercept = None, co2_middle_offset = None,
      ch4_slope = None, ch4_intercept = None, ch4_middle_offset = None\<rparr>"

text \<open>The certified concentrations, by standard name and compound.\<close>

type_synonym standards_table = "string \<Rightarrow> compound \<Rightarrow> real"

definition standards :: standards_table where
  "standards name cpd =
     (if name = ''low_std'' then (case cpd of CO \<Rightarrow> 69.6 | CO2 \<Rightarrow> 390.24 | CH4 \<Rightarrow> 1838.5)
      else if name = ''mid_std'' then (case cpd of CO \<Rightarrow> 117.4 | CO2 \<Rightarrow> 408.65 | CH4 \<Rightarrow> 1925.5)
      else (case cpd of CO \<Rightarrow> 174.6 | CO2 \<Rightarrow> 428.53 | CH4 \<Rightarrow> 2050.6))"

record Point =
  pt_x :: real
  pt_y :: "real option"

record Curve =
  curve_m :: real
  intercept :: real

section \<open>The curve fitter\<close>

text \<open>Python arithmetic on values that may be \<^verbatim>\<open>None\<close>, and float division.\<close>

definition py_sub :: "real option \<Rightarrow> real option \<Rightarrow> py_error + real" where
  "py_sub a b = (case (a, b) of (Some u, Some v) \<Rightarrow> Inr (u - v) | _ \<Rightarrow> Inl TypeError)"

definition py_truediv :: "real \<Rightarrow> real \<Rightarrow> py_error + real" where
  "py_truediv a b = (if b = 0 then Inl ZeroDivisionError else Inr (a / b))"

definition calc_two_pt_curve :: "Point \<Rightarrow> Point \<Rightarrow> py_error + Curve" where
  "calc_two_pt_curve low high =
     e_bind (py_sub (pt_y high) (pt_y low)) (\<lambda>dy.
     e_bind (py_truediv dy (pt_x high - pt_x low)) (\<lambda>m.
     e_bind (py_sub (pt_y low) (Some (m * pt_x low))) (\<lambda>b.
     Inr \<lparr>curve_m = m, intercept = b\<rparr>)))"

definition find_cal_by_type :: "CalEvent list \<Rightarrow> string \<Rightarrow> CalEvent option" where
  "find_cal_by_type stds std_type = find (\<lambda>ce. standard_used ce = std_type) stds"

text \<open>
  \<^verbatim>\<open>getattr(self.low_std, cpd + '_result').get('mean')\<close>: an absent subcal and an absent
  result both raise AttributeError; a result whose mean is unset gives \<^verbatim>\<open>None\<close>.
\<close>

definition result_mean :: "CalEvent option \<Rightarrow> compound \<Rightarrow> py_error + real option" where
  "result_mean cal cpd =
     (case cal of None \<Rightarrow> Inl AttributeError
      | Some ce \<Rightarrow> (case get_result ce cpd of None \<Rightarrow> Inl AttributeError | Some r \<Rightarrow> Inr (mean r)))"

fun set_curve :: "MasterCal \<Rightarrow> compound \<Rightarrow> real \<Rightarrow> real \<Rightarrow> real \<Rightarrow> MasterCal" where
  "set_curve self CO m b off =
     self\<lparr>co_slope := Some m, co_intercept := Some b, co_middle_offset := Some off\<rparr>"
| "set_curve self CO2 m b off =
     self\<lparr>co2_slope := Some m, co2_intercept := Some b, co2_middle_offset := Some off\<rparr>"
| "set_curve self CH4 m b off =
     self\<lparr>ch4_slope := Some m, ch4_intercept := Some b, ch4_middle_offset := Some off\<rparr>"

text \<open>
  \<^verbatim>\<open>mastercal_plot\<close>. Its statements draw the three points and the line and save the
  figure; none of them writes a field of the MasterCal. The last one, \<^verbatim>\<open>f.close()\<close>, is
  called on the Figure that \<^verbatim>\<open>plt.subplots\<close> gave, and a Figure has no such method: the
  call raises AttributeError, so the function never returns.
\<close>

definition mastercal_plot ::
  "compound \<Rightarrow> Point \<Rightarrow> Point \<Rightarrow> Point \<Rightarrow> Curve \<Rightarrow> real \<Rightarrow> timestamp \<Rightarrow> py_error + unit" where
  "mastercal_plot cpd low_coord mid_coord high_coord curve middle_y_offset day =
     Inl AttributeError"

text \<open>
  One round of the loop of \<^verbatim>\<open>MasterCal.create_curve\<close>, over the table of certified values
  (the module's \<^verbatim>\<open>standards\<close>): the three means, the curve, the three fields, the date of
  the first subcal, and the plot. An exception leaves \<^verbatim>\<open>create_mastercals\<close> before
  \<^verbatim>\<open>session.add\<close> and \<^verbatim>\<open>session.commit\<close>, so the fields set before it are kept nowhere:
  a failed call is its exception alone.
\<close>

definition create_curve_cpd :: "standards_table \<Rightarrow> MasterCal \<Rightarrow> compound \<Rightarrow> py_error + MasterCal" where
  "create_curve_cpd table self cpd =
     e_bind (result_mean (find_cal_by_type (subcals self) ''low_std'') cpd) (\<lambda>low_val.
     e_bind (result_mean (find_cal_by_type (subcals self) ''high_std'') cpd) (\<lambda>high_val.
     e_bind (result_mean (find_cal_by_type (subcals self) ''mid_std'') cpd) (\<lambda>mid_val.
       let low_coord = \<lparr>pt_x = table ''low_std'' cpd, pt_y = low_val\<rparr>;
           mid_coord = \<lparr>pt_x = table ''mid_std'' cpd, pt_y = mid_val\<rparr>;
           high_coord = \<lparr>pt_x = table ''high_std'' cpd, pt_y = high_val\<rparr>
       in e_bind (calc_two_pt_curve low_coord high_coord) (\<lambda>curve.
          e_bind (py_sub (pt_y mid_coord) (Some (curve_m curve * pt_x mid_coord + intercept curve)))
            (\<lambda>middle_y_offset.
          e_bind (case subcals self of [] \<Rightarrow> Inl IndexError | ce # _ \<Rightarrow> Inr (date ce)) (\<lambda>day.
          e_bind (mastercal_plot cpd low_coord mid_coord high_coord curve middle_y_offset day)
            (\<lambda>_.
          Inr (set_curve self cpd (curve_m curve) (intercept curve) middle_y_offset))))))))"

definition create_curve_with :: "standards_table \<Rightarrow> MasterCal \<Rightarrow> py_error + MasterCal" where
  "create_curve_with table self =
     e_bind (create_curve_cpd table self CO) (\<lambda>s1.
     e_bind (create_curve_cpd table s1 CO2) (\<lambda>s2.
     create_curve_cpd table s2 CH4))"

definition create_curve :: "MasterCal \<Rightarrow> py_error + MasterCal" where
  "create_curve self = create_curve_with standards self"

text \<open>The measured mean of a subcal, when the subcal, its result and the mean are all there.\<close>

definition measured_mean :: "MasterCal \<Rightarrow> string \<Rightarrow> compound \<Rightarrow> real option" where
  "measured_mean self std_type cpd =
     (case find_cal_by_type (subcals self) std_type of None \<Rightarrow> None
      | Some ce \<Rightarrow> (case get_result ce cpd of None \<Rightarrow> None | Some r \<Rightarrow> mean r))"

section \<open>The statistics of a calibration event\<close>

text \<open>
  Python's \<^verbatim>\<open>statistics\<close> module: \<^verbatim>\<open>mean\<close> and \<^verbatim>\<open>median\<close> raise StatisticsError on
  no data, \<^verbatim>\<open>stdev\<close> (the square root of the sample variance) on fewer than two points.
\<close>

definition s_mean :: "real list \<Rightarrow> py_error + real" where
  "s_mean xs =
     (if length xs < 1 then Inl StatisticsError else Inr (sum_list xs / real (length xs)))"

definition s_median :: "real list \<Rightarrow> py_error + real" where
  "s_median xs =
     (let d = sort xs; n = length d
      in if n = 0 then Inl StatisticsError
         else if n mod 2 = 1 then Inr (d ! (n div 2))
         else Inr ((d ! (n div 2 - 1) + d ! (n div 2)) / 2))"

definition s_variance :: "real list \<Rightarrow> py_error + real" where
  "s_variance xs =
     (let n = length xs
      in if n < 2 then Inl StatisticsError
         else let c = sum_list xs / real n;
                  ss = sum_list (map (\<lambda>v. (v - c)\<^sup>2) xs)
              in Inr (ss / real (n - 1)))"

definition s_stdev :: "real list \<Rightarrow> py_error + real" where
  "s_stdev xs = e_bind (s_variance xs) (\<lambda>var. Inr (sqrt var))"

text \<open>
  \<^verbatim>\<open>find_ind\<close>, local to \<^verbatim>\<open>calc_result\<close>: the loop over \<^verbatim>\<open>enumerate(dates)\<close> returns
  \<^verbatim>\<open>ind - 1\<close> at the first date over the cutoff, which is \<open>-1\<close> when that date is the first.
\<close>

fun find_ind_enum :: "nat \<Rightarrow> timestamp list \<Rightarrow> timestamp \<Rightarrow> int option" where
  "find_ind_enum ind [] cutoff = None"
| "find_ind_enum ind (d # ds) cutoff =
     (if d > cutoff then Some (int ind - 1) else find_ind_enum (Suc ind) ds cutoff)"

definition find_ind :: "timestamp list \<Rightarrow> timestamp \<Rightarrow> int option" where
  "find_ind ds cutoff = find_ind_enum 0 ds cutoff"

text \<open>The slice \<^verbatim>\<open>xs[i:]\<close>: a negative \<open>i\<close> counts from the end.\<close>

definition py_slice_from :: "'a list \<Rightarrow> int \<Rightarrow> 'a list" where
  "py_slice_from xs i =
     (if i < 0 then drop (nat (int (length xs) + i)) xs else drop (nat i) xs)"

definition calc_result :: "CalEvent \<Rightarrow> compound \<Rightarrow> real \<Rightarrow> py_error + CalEvent" where
  "calc_result self cpd bp =
     (let compound_data = compound_values self cpd;
          cutoff_date = date self - bp
      in case find_ind (dates self) cutoff_date of
           Some ind \<Rightarrow>
             (let data_to_use = py_slice_from compound_data ind
              in e_bind (s_mean data_to_use) (\<lambda>mn.
                 e_bind (s_median data_to_use) (\<lambda>md.
                 e_bind (s_stdev data_to_use) (\<lambda>sd.
                 Inr ((set_result self cpd \<lparr>mean = Some mn, median = Some md, stdev = Some sd\<rparr>)
                        \<lparr>back_period := Some bp\<rparr>)))))
         | None \<Rightarrow>
             Inr ((set_result self cpd \<lparr>mean = None, median = None, stdev = None\<rparr>)
                    \<lparr>back_period := Some bp\<rparr>))"

text \<open>
  The measurements the trailing window is described to hold: those whose timestamp is
  strictly after the end of the event minus the window length.
\<close>

definition window_values :: "CalEvent \<Rightarrow> compound \<Rightarrow> real \<Rightarrow> real list" where
  "window_values self cpd bp =
     map snd (filter (\<lambda>(t, v). t > date self - bp) (zip (dates self) (compound_values self cpd)))"

section \<open>Segmentation into calibration events\<close>

text \<open>
  \<^verbatim>\<open>Series.diff\<close> of pandas: the first entry is missing, entry \<open>i\<close> is the step from
  \<open>i - 1\<close> to \<open>i\<close>. A missing entry compares false.
\<close>

fun diff_series :: "timestamp list \<Rightarrow> real option list" where
  "diff_series [] = []"
| "diff_series (t # ts) = None # map (\<lambda>(a, b). Some (b - a)) (zip (t # ts) ts)"

definition find_cal_indices :: "timestamp list \<Rightarrow> nat list" where
  "find_cal_indices datetimes =
     (let diff = diff_series datetimes
      in filter (\<lambda>i. case diff ! i of None \<Rightarrow> False | Some d \<Rightarrow> d > 60) [0..<length diff])"

text \<open>The positional slice \<^verbatim>\<open>iloc[a:b]\<close>.\<close>

definition iloc :: "'a list \<Rightarrow> nat \<Rightarrow> nat \<Rightarrow> 'a list" where
  "iloc xs a b = take (b - a) (drop a xs)"

text \<open>
  The loop of \<^verbatim>\<open>find_cal_events\<close> over \<^verbatim>\<open>enumerate(indices)\<close>, on the rows (key and date)
  sorted by date: \<open>n\<close> is \<^verbatim>\<open>len(indices)\<close>, \<open>num\<close> the position in the enumeration. Each
  round appends the rows from the previous break to this one, and the rows after this
  break when \<^verbatim>\<open>num == len(indices)\<close>.
\<close>

fun event_loop :: "nat \<Rightarrow> nat \<Rightarrow> nat \<Rightarrow> nat list \<Rightarrow> 'a list \<Rightarrow> 'a list list" where
  "event_loop n num prev_ind [] rows = []"
| "event_loop n num prev_ind (ind # inds) rows =
     (iloc rows prev_ind ind # (if num = n then [drop ind rows] else []))
       @ event_loop n (Suc num) ind inds rows"

definition cal_event_rows :: "(nat \<times> timestamp) list \<Rightarrow> (nat \<times> timestamp) list list" where
  "cal_event_rows rows =
     (let indices = find_cal_indices (map snd rows)
      in if length indices = 0 then [] else event_loop (length indices) 0 0 indices rows)"

text \<open>The loop of the segmentation without the round that is never taken.\<close>

fun slices :: "nat \<Rightarrow> nat list \<Rightarrow> 'a list \<Rightarrow> 'a list list" where
  "slices prev_ind [] rows = []"
| "slices prev_ind (ind # inds) rows = iloc rows prev_ind ind # slices ind inds rows"

text \<open>
  The store is the list of its rows in key order. A query filters it; the rows come back
  in the order of the store.
\<close>

definition select_mpv :: "Datum list \<Rightarrow> real \<Rightarrow> (nat \<times> timestamp) list" where
  "select_mpv store MPV =
     map (\<lambda>d. (datum_id d, datum_date d))
       (filter (\<lambda>d. mpv_position d = MPV \<and> cal_id d = None) store)"

definition query_ids :: "Datum list \<Rightarrow> nat list \<Rightarrow> Datum list" where
  "query_ids store ids = filter (\<lambda>d. datum_id d \<in> set ids) store"

fun make_events :: "Datum list \<Rightarrow> string \<Rightarrow> (nat \<times> timestamp) list list \<Rightarrow> py_error + CalEvent list" where
  "make_events store standard [] = Inr []"
| "make_events store standard (sl # sls) =
     e_bind (CalEvent_init (query_ids store (map fst sl)) standard) (\<lambda>ev.
     e_bind (make_events store standard sls) (\<lambda>evs. Inr (ev # evs)))"

text \<open>
  The second loop of \<^verbatim>\<open>find_cal_events\<close>, for one event: an event shorter than 90 seconds
  gets the standard \<^verbatim>\<open>'dump'\<close>, any other event its three results over the last 21 seconds.
\<close>

definition quantify_event :: "CalEvent \<Rightarrow> py_error + CalEvent" where
  "quantify_event ev =
     (case dates ev of
        [] \<Rightarrow> Inl IndexError
      | d0 # _ \<Rightarrow>
          if date ev - d0 < 90 then Inr (ev\<lparr>standard_used := ''dump''\<rparr>)
          else e_bind (calc_result ev CO 21) (\<lambda>e1.
               e_bind (calc_result e1 CO2 21) (\<lambda>e2.
               calc_result e2 CH4 21)))"

fun quantify_all :: "CalEvent list \<Rightarrow> py_error + CalEvent list" where
  "quantify_all [] = Inr []"
| "quantify_all (ev # evs) =
     e_bind (quantify_event ev) (\<lambda>q. e_bind (quantify_all evs) (\<lambda>qs. Inr (q # qs)))"

definition find_cal_events_standard :: "Datum list \<Rightarrow> real \<Rightarrow> string \<Rightarrow> py_error + CalEvent list" where
  "find_cal_events_standard store MPV standard =
     (let mpv_data = select_mpv store MPV
      in if length mpv_data = 0 then Inr []
         else e_bind (make_events store standard (cal_event_rows (sort_key snd mpv_data)))
                quantify_all)"

text \<open>
  The segmentation rule in the words of the design: a new run begins whenever the gap to
  the previous row exceeds 60 seconds; the runs are the maximal stretches between breaks.
\<close>

fun maximal_runs :: "(nat \<times> timestamp) list \<Rightarrow> (nat \<times> timestamp) list list" where
  "maximal_runs [] = []"
| "maximal_runs [r] = [[r]]"
| "maximal_runs (r # r' # rs) =
     (if snd r' - snd r > 60 then [r] # maximal_runs (r' # rs)
      else (case maximal_runs (r' # rs) of [] \<Rightarrow> [[r]] | g # gs \<Rightarrow> (r # g) # gs))"

section \<open>The matcher\<close>

text \<open>
  Modelled from the spec: \<^verbatim>\<open>find_closest_date\<close> of the module \<^verbatim>\<open>summit_core\<close>, which is
  not among the sources. It gives the date of the list with the minimum absolute
  difference from the given date, and that difference; of two equally close dates the
  earlier in the list is taken.
\<close>

fun find_closest_date :: "timestamp \<Rightarrow> timestamp list \<Rightarrow> (timestamp \<times> real) option" where
  "find_closest_date d [] = None"
| "find_closest_date d (c # cs) =
     (case find_closest_date d cs of
        None \<Rightarrow> Some (c, c - d)
      | Some (m, diff) \<Rightarrow> if \<bar>c - d\<bar> \<le> \<bar>diff\<bar> then Some (c, c - d) else Some (m, diff))"

text \<open>
  Modelled from the spec: \<^verbatim>\<open>search_for_attr_value\<close> of the module \<^verbatim>\<open>summit_core\<close>, which
  is not among the sources, called on the attribute \<^verbatim>\<open>date\<close>. It gives the first event of
  the list with the date searched for.
\<close>

definition search_for_attr_value :: "CalEvent list \<Rightarrow> timestamp \<Rightarrow> CalEvent option" where
  "search_for_attr_value cals query = find (\<lambda>c. date c = query) cals"

text \<open>
  \<^verbatim>\<open>match_cals_by_min\<close>. A datetime is never false in Python, a zero timedelta is: the
  test \<^verbatim>\<open>not match or not diff\<close> gives up on a difference of zero.
\<close>

definition match_cals_by_min :: "CalEvent \<Rightarrow> CalEvent list \<Rightarrow> real \<Rightarrow> CalEvent option" where
  "match_cals_by_min cal cals minutes =
     (let cal_dates = map date cals
      in if cal_dates = [] then None
         else (case find_closest_date (date cal) cal_dates of
                 None \<Rightarrow> None
               | Some (match, diff) \<Rightarrow>
                   if diff = 0 then None
                   else if \<bar>diff\<bar> < minutes * 60 then search_for_attr_value cals match
                   else None))"

definition unlinked :: "CalEvent list \<Rightarrow> string \<Rightarrow> CalEvent list" where
  "unlinked cals standard =
     filter (\<lambda>c. mastercal_id c = None \<and> standard_used c = standard) cals"

text \<open>
  The body of the first loop of \<^verbatim>\<open>create_mastercals\<close> for one low event: the two searches,
  and the list handed to the constructor when both succeed.
\<close>

definition match_triple :: "CalEvent \<Rightarrow> CalEvent list \<Rightarrow> CalEvent list \<Rightarrow> CalEvent list option" where
  "match_triple lowcal highcals midcals =
     (case match_cals_by_min lowcal highcals 5 of
        None \<Rightarrow> None
      | Some matching_high \<Rightarrow>
          (case match_cals_by_min matching_high midcals 5 of
             None \<Rightarrow> None
           | Some matching_mid \<Rightarrow> Some [lowcal, matching_high, matching_mid]))"

text \<open>
  \<^verbatim>\<open>subcals\<close> is a one-to-many relationship: a CalEvent has one \<^verbatim>\<open>mastercal_id\<close>, and
  \<^verbatim>\<open>back_populates\<close> keeps both sides in step. Putting an event into the subcals of a new
  MasterCal takes it out of the subcals of the MasterCal that held it. An event is the
  same object when it is the same row.
\<close>

definition release :: "CalEvent list \<Rightarrow> MasterCal \<Rightarrow> MasterCal" where
  "release taken mc = mc\<lparr>subcals := filter (\<lambda>ce. ce \<notin> set taken) (subcals mc)\<rparr>"

text \<open>\<^verbatim>\<open>mastercals.append(MasterCal([lowcal, matching_high, matching_mid]))\<close>.\<close>

definition append_mastercal :: "MasterCal list \<Rightarrow> CalEvent list \<Rightarrow> MasterCal list" where
  "append_mastercal mastercals standards_given =
     map (release standards_given) mastercals @ [MasterCal_init standards_given]"

fun match_loop :: "MasterCal list \<Rightarrow> CalEvent list \<Rightarrow> CalEvent list \<Rightarrow> CalEvent list \<Rightarrow> MasterCal list" where
  "match_loop mastercals [] highcals midcals = mastercals"
| "match_loop mastercals (lowcal # lowcals) highcals midcals =
     match_loop
       (case match_triple lowcal highcals midcals of
          None \<Rightarrow> mastercals
        | Some standards_given \<Rightarrow> append_mastercal mastercals standards_given)
       lowcals highcals midcals"

text \<open>
  The second loop of \<^verbatim>\<open>create_mastercals\<close>: each MasterCal gets its curve and is added to
  the session; the commit comes after the loop, so an exception stores nothing.
\<close>

fun create_curves :: "MasterCal list \<Rightarrow> py_error + MasterCal list" where
  "create_curves [] = Inr []"
| "create_curves (mc # mcs) =
     e_bind (create_curve mc) (\<lambda>fitted.
     e_bind (create_curves mcs) (\<lambda>rest. Inr (fitted # rest)))"

text \<open>
  One round of \<^verbatim>\<open>create_mastercals\<close> over the stored events: the MasterCals it commits,
  or the exception that ends it.
\<close>

definition create_mastercals :: "CalEvent list \<Rightarrow> py_error + MasterCal list" where
  "create_mastercals cals =
     (let mastercals = match_loop [] (unlinked cals ''low_std'') (unlinked cals ''high_std'')
                         (unlinked cals ''mid_std'')
      in if length mastercals > 0 then create_curves mastercals else Inr [])"

text \<open>The least absolute time difference between an event and a non-empty pool.\<close>

definition nearest_diff :: "CalEvent \<Rightarrow> CalEvent list \<Rightarrow> real" where
  "nearest_diff cal cals = Min (set (map (\<lambda>c. \<bar>date c - date cal\<bar>) cals))"

section \<open>The flush filter\<close>

definition filter_postcal_data :: "CalEvent \<Rightarrow> Datum list \<Rightarrow> py_error + Datum list" where
  "filter_postcal_data cal store =
     (if data cal = [] then Inl IndexError
      else let last_cal_date = datum_date (last (data cal));
               end_flush_date = last_cal_date + 60
           in Inr (map (\<lambda>d. if datum_date d > last_cal_date \<and> datum_date d \<le> end_flush_date
                             then d\<lparr>instrument_status := 999\<rparr> else d) store))"

section \<open>Ingestion\<close>

text \<open>
  The last loop of \<^verbatim>\<open>check_load_new_data\<close>: \<^verbatim>\<open>db_dates\<close> is read from the store once, at
  the start of the round; each file to process is a key and its parsed rows, and a row is
  added when its date is not in \<^verbatim>\<open>db_dates\<close>. The keys the store gives to new rows are not
  modelled.
\<close>

fun add_rows :: "timestamp list \<Rightarrow> nat \<Rightarrow> Datum list \<Rightarrow> Datum list \<Rightarrow> Datum list" where
  "add_rows db_dates fid [] store = store"
| "add_rows db_dates fid (d # ds) store =
     add_rows db_dates fid ds
       (if datum_date d \<notin> set db_dates then store @ [d\<lparr>file_id := Some fid\<rparr>] else store)"

fun load_files :: "timestamp list \<Rightarrow> (nat \<times> Datum list) list \<Rightarrow> Datum list \<Rightarrow> Datum list" where
  "load_files db_dates [] store = store"
| "load_files db_dates ((fid, data_list) # files) store =
     load_files db_dates files (add_rows db_dates fid data_list store)"

definition check_load_new_data :: "Datum list \<Rightarrow> (nat \<times> Datum list) list \<Rightarrow> Datum list" where
  "check_load_new_data store files_to_process =
     (let db_dates = map datum_date store in load_files db_dates files_to_process store)"

section \<open>Example data\<close>

definition example_datum :: "nat \<Rightarrow> timestamp \<Rightarrow> real \<Rightarrow> real \<Rightarrow> Datum" where
  "example_datum i t mpv v =
     \<lparr>datum_id = i, datum_date = t, instrument_status = 963, mpv_position = mpv,
      co = v, co2 = v, ch4 = v, file_id = None, cal_id = None\<rparr>"

definition example_event :: "timestamp \<Rightarrow> string \<Rightarrow> real \<Rightarrow> CalEvent" where
  "example_event t standard v =
     \<lparr>cal_event_id = 0, date = t, data = [], standard_used = standard,
      co_result = Some \<lparr>mean = Some v, median = Some v, stdev = Some 0\<rparr>,
      co2_result = Some \<lparr>mean = Some v, median = Some v, stdev = Some 0\<rparr>,
      ch4_result = Some \<lparr>mean = Some v, median = Some v, stdev = Some 0\<rparr>,
      back_period = Some 21, mastercal_id = None\<rparr>"

definition example_mastercal :: MasterCal where
  "example_mastercal =
     MasterCal_init [example_event 0 ''low_std'' 69.8, example_event 180 ''high_std'' 174.4,
                     example_event 360 ''mid_std'' 117]"

definition single_datum_event :: CalEvent where
  "single_datum_event = event_of [example_datum 1 100 2 70] ''low_std''"

definition window_event :: CalEvent where
  "window_event =
     event_of [example_datum 1 0 2 10, example_datum 2 50 2 20, example_datum 3 90 2 30,
               example_datum 4 100 2 40] ''low_std''"

definition example_cals :: "CalEvent list" where
  "example_cals =
     [example_event 0 ''low_std'' 69.8, example_event 100 ''dump'' 120,
      example_event 180 ''high_std'' 174.4, example_event 360 ''mid_std'' 117]"

definition reuse_low :: CalEvent where
  "reuse_low = example_event 0 ''low_std'' 69.8"

definition reuse_low_later :: CalEvent where
  "reuse_low_later = example_event 100 ''low_std'' 69.9"

definition reuse_high :: CalEvent where
  "reuse_high = example_event 200 ''high_std'' 174.4"

definition reuse_mid :: CalEvent where
  "reuse_mid = example_event 300 ''mid_std'' 117"

definition reuse_cals :: "CalEvent list" where
  "reuse_cals = [reuse_low, reuse_low_later, reuse_high, reuse_mid]"

definition example_low :: CalEvent where
  "example_low = example_event 0 ''low_std'' 69.8"

definition example_high :: CalEvent where
  "example_high = example_event 180 ''high_std'' 174.4"

definition example_mid :: CalEvent where
  "example_mid = example_event 360 ''mid_std'' 117"

definition flush_event :: CalEvent where
  "flush_event = event_of [example_datum 1 0 2 70, example_datum 2 100 2 70] ''low_std''"

text \<open>
  A store whose keys do not follow the dates: the Datum dated 90 was stored before those
  dated 0 and 45.
\<close>

definition key_order_store :: "Datum list" where
  "key_order_store =
     [example_datum 2 90 2 70, example_datum 4 0 2 70, example_datum 5 45 2 70,
      example_datum 6 300 2 70]"

definition example_rows :: "(nat \<times> timestamp) list" where
  "example_rows = [(1, 0), (2, 45), (3, 200), (4, 230), (5, 400)]"

section \<open>Properties of the curve fitter\<close>

lemma e_bind_Inr [simp]: "e_bind (Inr v) f = f v"
  by (simp add: e_bind_def)

lemma e_bind_Inl [simp]: "e_bind (Inl e) f = Inl e"
  by (simp add: e_bind_def)

lemma result_mean_measured:
  "measured_mean self std_type cpd = Some v \<Longrightarrow>
   result_mean (find_cal_by_type (subcals self) std_type) cpd = Inr (Some v)"
  by (auto simp: measured_mean_def result_mean_def split: option.splits)

text \<open>
  The two-point fit itself: the slope, the intercept, and a line through both end points.
\<close>

lemma calc_two_pt_curve_fit:
  assumes "pt_y low = Some ly" and "pt_y high = Some hy" and "pt_x low \<noteq> pt_x high"
  shows "\<exists>c. calc_two_pt_curve low high = Inr c \<and>
     curve_m c = (hy - ly) / (pt_x high - pt_x low) \<and>
     intercept c = ly - curve_m c * pt_x low \<and>
     curve_m c * pt_x low + intercept c = ly \<and>
     curve_m c * pt_x high + intercept c = hy"
proof -
  define m where "m = (hy - ly) / (pt_x high - pt_x low)"
  have nz: "pt_x high - pt_x low \<noteq> 0"
    using assms(3) by auto
  then have "m * (pt_x high - pt_x low) = hy - ly"
    by (simp add: m_def)
  then have "m * pt_x high + (ly - m * pt_x low) = hy"
    by (simp add: algebra_simps)
  moreover have "calc_two_pt_curve low high = Inr \<lparr>curve_m = m, intercept = ly - m * pt_x low\<rparr>"
    using assms(1,2) nz by (simp add: calc_two_pt_curve_def py_sub_def py_truediv_def m_def)
  ultimately show ?thesis
    by (simp add: m_def)
qed

text \<open>The plot ends every round of the loop, so \<^verbatim>\<open>create_curve\<close> never returns.\<close>

lemma create_curve_cpd_never_returns: "\<exists>e. create_curve_cpd table self cpd = Inl e"
proof (cases "create_curve_cpd table self cpd")
  case (Inl e)
  then show ?thesis by blast
next
  case (Inr s)
  then have False
    by (auto simp: create_curve_cpd_def e_bind_def mastercal_plot_def Let_def
        split: sum.splits list.splits)
  then show ?thesis ..
qed

lemma create_curve_never_returns: "\<exists>e. create_curve_with table self = Inl e"
  using create_curve_cpd_never_returns [of table self CO]
  by (auto simp: create_curve_with_def)

text \<open>
  With the three means there and distinct certified end points, the round of a compound
  gets as far as the plot.
\<close>

lemma create_curve_cpd_raises_in_plot:
  assumes "measured_mean self ''low_std'' cpd = Some lv"
    and "measured_mean self ''high_std'' cpd = Some hv"
    and "measured_mean self ''mid_std'' cpd = Some mv"
    and "table ''low_std'' cpd \<noteq> table ''high_std'' cpd"
  shows "create_curve_cpd table self cpd = Inl AttributeError"
proof -
  from assms(1) have "subcals self \<noteq> []"
    by (auto simp: measured_mean_def find_cal_by_type_def)
  then obtain ce rest where sc: "subcals self = ce # rest"
    by (cases "subcals self") auto
  have rm: "result_mean (find_cal_by_type (subcals self) ''low_std'') cpd = Inr (Some lv)"
    "result_mean (find_cal_by_type (subcals self) ''high_std'') cpd = Inr (Some hv)"
    "result_mean (find_cal_by_type (subcals self) ''mid_std'') cpd = Inr (Some mv)"
    using assms(1-3) by (simp_all add: result_mean_measured)
  have "(case subcals self of [] \<Rightarrow> Inl IndexError | ce # _ \<Rightarrow> Inr (date ce)) = Inr (date ce)"
    by (simp add: sc)
  then show ?thesis
    using assms(4) unfolding create_curve_cpd_def rm
    by (simp add: calc_two_pt_curve_def py_sub_def py_truediv_def mastercal_plot_def)
qed

text \<open>
  Claim C6, at a MasterCal of a low, a high and a mid event with the means 69.8, 174.4 and
  117: the two-point fit of the CO means gives the slope and the intercept of the claim,
  and \<^verbatim>\<open>create_curve\<close> raises AttributeError in the plot of the first compound, so that no
  slope, intercept or offset is stored.
\<close>

theorem create_curve_raises_in_plot:
  "calc_two_pt_curve \<lparr>pt_x = standards ''low_std'' CO, pt_y = Some 69.8\<rparr>
       \<lparr>pt_x = standards ''high_std'' CO, pt_y = Some 174.4\<rparr>
     = Inr \<lparr>curve_m = (174.4 - 69.8) / (174.6 - 69.6),
            intercept = 69.8 - (174.4 - 69.8) / (174.6 - 69.6) * 69.6\<rparr> \<and>
   create_curve_cpd standards example_mastercal CO = Inl AttributeError \<and>
   create_curve example_mastercal = Inl AttributeError"
proof -
  have c: "calc_two_pt_curve \<lparr>pt_x = standards ''low_std'' CO, pt_y = Some 69.8\<rparr>
       \<lparr>pt_x = standards ''high_std'' CO, pt_y = Some 174.4\<rparr>
     = Inr \<lparr>curve_m = (174.4 - 69.8) / (174.6 - 69.6),
            intercept = 69.8 - (174.4 - 69.8) / (174.6 - 69.6) * 69.6\<rparr>"
    by (simp add: calc_two_pt_curve_def py_sub_def py_truediv_def standards_def)
  have m: "measured_mean example_mastercal ''low_std'' CO = Some 69.8"
    "measured_mean example_mastercal ''high_std'' CO = Some 174.4"
    "measured_mean example_mastercal ''mid_std'' CO = Some 117"
    by (simp_all add: measured_mean_def example_mastercal_def MasterCal_init_def
        find_cal_by_type_def example_event_def)
  have d: "standards ''low_std'' CO \<noteq> standards ''high_std'' CO"
    by (simp add: standards_def)
  have p: "create_curve_cpd standards example_mastercal CO = Inl AttributeError"
    by (rule create_curve_cpd_raises_in_plot [where table = standards, OF m d])
  then have "create_curve example_mastercal = Inl AttributeError"
    by (simp add: create_curve_def create_curve_with_def)
  with c p show ?thesis by blast
qed

text \<open>
  Claim C8. When the certified low and high concentrations of some compound are equal, the
  curve fit ends in an exception and stores nothing; with both measured means present the
  exception of the two-point fit is ZeroDivisionError, and it is the exception of the round
  of that compound.
\<close>

theorem degenerate_curve_fails:
  assumes "table ''low_std'' cpd = table ''high_std'' cpd"
  shows "(\<exists>e. create_curve_with table self = Inl e) \<and>
     (\<forall>lo hi a b. pt_x lo = pt_x hi \<and> pt_y lo = Some a \<and> pt_y hi = Some b \<longrightarrow>
        calc_two_pt_curve lo hi = Inl ZeroDivisionError) \<and>
     (\<forall>lv hv mv. measured_mean self ''low_std'' cpd = Some lv \<and>
        measured_mean self ''high_std'' cpd = Some hv \<and>
        measured_mean self ''mid_std'' cpd = Some mv \<longrightarrow>
        create_curve_cpd table self cpd = Inl ZeroDivisionError)"
proof -
  have cpd_fails: "\<exists>e. create_curve_cpd table s cpd = Inl e" for s
    using assms
    by (auto simp: create_curve_cpd_def e_bind_def calc_two_pt_curve_def py_truediv_def
        py_sub_def Let_def split: sum.splits option.splits)
  then have never: "create_curve_cpd table s cpd \<noteq> Inr s'" for s s'
    by (metis sum.distinct(1))
  have "\<exists>e. create_curve_with table self = Inl e"
    using never cpd_fails
    by (cases cpd) (auto simp: create_curve_with_def e_bind_def split: sum.splits)
  moreover have "calc_two_pt_curve lo hi = Inl ZeroDivisionError"
    if "pt_x lo = pt_x hi \<and> pt_y lo = Some a \<and> pt_y hi = Some b" for lo hi a b
    using that by (simp add: calc_two_pt_curve_def py_sub_def py_truediv_def)
  moreover have "create_curve_cpd table self cpd = Inl ZeroDivisionError"
    if "measured_mean self ''low_std'' cpd = Some lv \<and>
        measured_mean self ''high_std'' cpd = Some hv \<and>
        measured_mean self ''mid_std'' cpd = Some mv" for lv hv mv
    using that assms
    by (simp add: create_curve_cpd_def result_mean_measured calc_two_pt_curve_def py_sub_def
        py_truediv_def)
  ultimately show ?thesis by blast
qed

theorem degenerate_curve_fails_witness:
  "create_curve_with (\<lambda>name cpd. 100) example_mastercal = Inl ZeroDivisionError \<and>
   calc_two_pt_curve \<lparr>pt_x = 100, pt_y = Some 69.8\<rparr> \<lparr>pt_x = 100, pt_y = Some 174.4\<rparr>
     = Inl ZeroDivisionError"
  using degenerate_curve_fails [of "\<lambda>name cpd. 100" CO example_mastercal]
  by (simp add: create_curve_with_def create_curve_cpd_def example_mastercal_def
      MasterCal_init_def find_cal_by_type_def example_event_def result_mean_def
      calc_two_pt_curve_def py_sub_def py_truediv_def)

section \<open>Properties of the trailing window\<close>

lemma length_compound_values [simp]: "length (compound_values self cpd) = length (data self)"
  by (cases cpd) simp_all

lemma s_stdev_single: "length xs = 1 \<Longrightarrow> s_stdev xs = Inl StatisticsError"
  by (simp add: s_stdev_def s_variance_def)

lemma s_mean_single: "length xs = 1 \<Longrightarrow> \<exists>v. s_mean xs = Inr v"
  by (simp add: s_mean_def)

lemma s_median_single: "length xs = 1 \<Longrightarrow> \<exists>v. s_median xs = Inr v"
  by (cases xs) (simp_all add: s_median_def Let_def)

text \<open>
  Claim C10. When the index found is the one of a slice that holds exactly one measurement,
  \<^verbatim>\<open>calc_result\<close> raises StatisticsError (the sample standard deviation of one value) and
  gives no event back, neither with a result nor with unset fields.
\<close>

theorem calc_result_single_measurement_raises:
  assumes "find_ind (dates self) (date self - bp) = Some ind"
    and "length (py_slice_from (compound_values self cpd) ind) = 1"
  shows "calc_result self cpd bp = Inl StatisticsError"
proof -
  obtain mn md where "s_mean (py_slice_from (compound_values self cpd) ind) = Inr mn"
    and "s_median (py_slice_from (compound_values self cpd) ind) = Inr md"
    using s_mean_single [OF assms(2)] s_median_single [OF assms(2)] by blast
  then show ?thesis
    using assms(1) s_stdev_single [OF assms(2)] by (simp add: calc_result_def)
qed

theorem calc_result_single_measurement_raises_witness:
  "find_ind (dates single_datum_event) (date single_datum_event - 21) = Some (- 1) \<and>
   length (py_slice_from (compound_values single_datum_event CO) (- 1)) = 1 \<and>
   calc_result single_datum_event CO 21 = Inl StatisticsError"
proof -
  have h1: "find_ind (dates single_datum_event) (date single_datum_event - 21) = Some (- 1)"
    by (simp add: find_ind_def dates_def single_datum_event_def event_of_def example_datum_def)
  have h2: "length (py_slice_from (compound_values single_datum_event CO) (- 1)) = 1"
    by (simp add: py_slice_from_def single_datum_event_def event_of_def)
  show ?thesis
    using h1 h2 calc_result_single_measurement_raises [OF h1 h2] by simp
qed

text \<open>
  The slice has one element exactly when the first date is already over the cutoff: the
  index is then \<open>-1\<close>. An event of a single Datum with a positive window is such an event.
\<close>

lemma calc_result_first_over_cutoff:
  assumes "dates self = d0 # rest" and "d0 > date self - bp"
  shows "calc_result self cpd bp = Inl StatisticsError"
proof -
  have ind: "find_ind (dates self) (date self - bp) = Some (- 1)"
    using assms by (simp add: find_ind_def)
  have "length (data self) = Suc (length rest)"
    using assms(1) by (metis dates_def length_Cons length_map)
  then have "length (py_slice_from (compound_values self cpd) (- 1)) = 1"
    by (simp add: py_slice_from_def)
  with ind show ?thesis
    by (simp add: calc_result_def s_mean_def s_median_def s_stdev_def s_variance_def Let_def)
qed

text \<open>
  Whenever the index found is not \<open>-1\<close>, the slice starts at a date that is at or before
  the cutoff.
\<close>

lemma find_ind_enum_before_cutoff:
  "find_ind_enum k ds cutoff = Some i \<Longrightarrow> int k \<le> i \<Longrightarrow>
   nat (i - int k) < length ds \<and> ds ! nat (i - int k) \<le> cutoff"
proof (induction ds arbitrary: k)
  case Nil
  then show ?case by simp
next
  case (Cons d ds)
  from Cons.prems have le: "\<not> d > cutoff" and rec: "find_ind_enum (Suc k) ds cutoff = Some i"
    by (auto split: if_splits)
  show ?case
  proof (cases "i = int k")
    case True
    with le show ?thesis by simp
  next
    case False
    with Cons.prems(2) have "int (Suc k) \<le> i" by simp
    from Cons.IH [OF rec this] have "nat (i - int (Suc k)) < length ds"
      and "ds ! nat (i - int (Suc k)) \<le> cutoff" by simp_all
    moreover have "nat (i - int k) = Suc (nat (i - int (Suc k)))"
      using \<open>int (Suc k) \<le> i\<close> by simp
    ultimately show ?thesis by simp
  qed
qed

lemma find_ind_before_cutoff:
  "find_ind ds cutoff = Some i \<Longrightarrow> 0 \<le> i \<Longrightarrow> nat i < length ds \<and> ds ! nat i \<le> cutoff"
  using find_ind_enum_before_cutoff [of 0 ds cutoff i] by (simp add: find_ind_def)

text \<open>
  Claim C2, at an event with measurements 10, 20, 30, 40 at the seconds 0, 50, 90, 100 and a
  window of 21 seconds: the measurements strictly after the cutoff 79 are 30 and 40, with
  mean 35; \<^verbatim>\<open>calc_result\<close> slices from the index before the first date over the cutoff, so
  the measurement 20 at second 50 contributes, and the stored mean is 30.
\<close>

theorem calc_result_includes_sample_before_cutoff:
  "window_values window_event CO 21 = [30, 40] \<and>
   s_mean (window_values window_event CO 21) = Inr 35 \<and>
   py_slice_from (compound_values window_event CO) 1 = [20, 30, 40] \<and>
   (case calc_result window_event CO 21 of Inl e \<Rightarrow> None
    | Inr ev \<Rightarrow> map_option mean (co_result ev)) = Some (Some 30)"
proof -
  have d: "dates window_event = [0, 50, 90, 100]" "date window_event = 100"
    "map co (data window_event) = [10, 20, 30, 40]"
    by (simp_all add: window_event_def event_of_def dates_def example_datum_def)
  have w: "window_values window_event CO 21 = [30, 40]"
    by (simp add: window_values_def window_event_def event_of_def dates_def example_datum_def)
  have i: "find_ind (dates window_event) (date window_event - 21) = Some 1"
    by (simp add: find_ind_def d)
  have s: "py_slice_from (compound_values window_event CO) 1 = [20, 30, 40]"
    by (simp add: py_slice_from_def d)
  have m: "s_mean [20, 30, 40] = Inr 30" "s_mean [30, 40] = Inr 35"
    by (simp_all add: s_mean_def)
  have md: "\<exists>v. s_median [20, 30, 40] = Inr v"
    by (simp add: s_median_def Let_def)
  have sd: "\<exists>v. s_stdev [20, 30, 40] = Inr v"
    by (simp add: s_stdev_def s_variance_def Let_def)
  from md sd obtain v1 v2 where "s_median [20, 30, 40] = Inr v1" "s_stdev [20, 30, 40] = Inr v2"
    by blast
  then have "(case calc_result window_event CO 21 of Inl e \<Rightarrow> None
    | Inr ev \<Rightarrow> map_option mean (co_result ev)) = Some (Some 30)"
    using i s m by (simp add: calc_result_def del: One_nat_def)
  with w s m show ?thesis by simp
qed

section \<open>Properties of the discard rule and of the matcher\<close>

lemma standard_used_calc_result:
  "calc_result ev cpd bp = Inr ev' \<Longrightarrow> standard_used ev' = standard_used ev"
  by (cases cpd)
     (auto simp: calc_result_def e_bind_def Let_def split: option.splits sum.splits)

lemma match_cals_by_min_member:
  "match_cals_by_min cal cals minutes = Some c \<Longrightarrow> c \<in> set cals"
  by (auto simp: match_cals_by_min_def search_for_attr_value_def find_Some_iff Let_def
      split: if_splits option.splits prod.splits)

text \<open>
  The discard rule reads the data of an event in the order the event holds them: the event
  is tagged when the date of the last Datum of the list minus the date of the first is
  under 90 seconds.
\<close>

lemma quantify_event_dump_iff:
  assumes "CalEvent_init event_data standard = Inr ev" and "standard \<noteq> ''dump''"
  shows "(\<exists>ev'. quantify_event ev = Inr ev' \<and> standard_used ev' = ''dump'') \<longleftrightarrow>
            datum_date (last event_data) - datum_date (hd event_data) < 90"
proof -
  from assms(1) have ne: "event_data \<noteq> []" and ev: "ev = event_of event_data standard"
    by (auto simp: CalEvent_init_def event_of_def split: if_splits)
  then obtain d0 rest where dd: "event_data = d0 # rest"
    by (cases event_data) auto
  have std: "standard_used ev = standard" and dt: "date ev = datum_date (last event_data)"
    and ds: "dates ev = datum_date d0 # map datum_date rest"
    by (simp_all add: ev event_of_def dates_def dd)
  have keep: "standard_used ev' = standard"
    if "e_bind (calc_result ev CO 21) (\<lambda>e1. e_bind (calc_result e1 CO2 21)
          (\<lambda>e2. calc_result e2 CH4 21)) = Inr ev'" for ev'
    using that std
    by (auto simp: e_bind_def split: sum.splits dest!: standard_used_calc_result)
  show ?thesis
  proof (cases "date ev - datum_date d0 < 90")
    case True
    then have "quantify_event ev = Inr (ev\<lparr>standard_used := ''dump''\<rparr>)"
      by (simp add: quantify_event_def ds)
    with True show ?thesis by (simp add: dt dd)
  next
    case False
    then have "quantify_event ev = e_bind (calc_result ev CO 21) (\<lambda>e1.
        e_bind (calc_result e1 CO2 21) (\<lambda>e2. calc_result e2 CH4 21))"
      by (simp add: quantify_event_def ds)
    with False keep assms(2) show ?thesis
      by (auto simp: dt dd)
  qed
qed

text \<open>No subcal of a MasterCal the matcher forms is tagged \<^verbatim>\<open>'dump'\<close>.\<close>

lemma match_triple_members:
  "match_triple l highcals midcals = Some t \<Longrightarrow> set t \<subseteq> insert l (set highcals \<union> set midcals)"
  by (auto simp: match_triple_def split: option.splits dest: match_cals_by_min_member)

lemma subcals_release: "set (subcals (release taken mc)) \<subseteq> set (subcals mc)"
  by (auto simp: release_def)

lemma match_loop_subcals:
  assumes "\<forall>mc \<in> set mastercals. set (subcals mc) \<subseteq> S"
    and "set lowcals \<union> set highcals \<union> set midcals \<subseteq> S"
  shows "\<forall>mc \<in> set (match_loop mastercals lowcals highcals midcals). set (subcals mc) \<subseteq> S"
  using assms
proof (induction lowcals arbitrary: mastercals)
  case Nil
  then show ?case by simp
next
  case (Cons lowcal lowcals)
  define next_mcs where "next_mcs =
    (case match_triple lowcal highcals midcals of
       None \<Rightarrow> mastercals
     | Some standards_given \<Rightarrow> append_mastercal mastercals standards_given)"
  have "\<forall>mc \<in> set next_mcs. set (subcals mc) \<subseteq> S"
  proof (cases "match_triple lowcal highcals midcals")
    case None
    with Cons.prems(1) show ?thesis by (simp add: next_mcs_def)
  next
    case (Some t)
    from match_triple_members [OF Some] Cons.prems(2) have "set t \<subseteq> S" by auto
    moreover have "set (subcals (release t mc)) \<subseteq> S" if "mc \<in> set mastercals" for mc
      using that Cons.prems(1) subcals_release [of t mc] by blast
    ultimately show ?thesis
      by (auto simp: next_mcs_def Some append_mastercal_def MasterCal_init_def)
  qed
  moreover have "set lowcals \<union> set highcals \<union> set midcals \<subseteq> S"
    using Cons.prems(2) by auto
  ultimately have "\<forall>mc \<in> set (match_loop next_mcs lowcals highcals midcals). set (subcals mc) \<subseteq> S"
    by (rule Cons.IH)
  then show ?case by (simp add: next_mcs_def)
qed

lemma match_loop_never_takes_dump:
  assumes "mc \<in> set (match_loop [] (unlinked cals ''low_std'') (unlinked cals ''high_std'')
                       (unlinked cals ''mid_std''))"
    and "ce \<in> set (subcals mc)"
  shows "standard_used ce \<noteq> ''dump''"
proof -
  define S where "S = set (unlinked cals ''low_std'') \<union> set (unlinked cals ''high_std'')
    \<union> set (unlinked cals ''mid_std'')"
  have "\<forall>mc \<in> set (match_loop [] (unlinked cals ''low_std'') (unlinked cals ''high_std'')
      (unlinked cals ''mid_std'')). set (subcals mc) \<subseteq> S"
    by (rule match_loop_subcals) (simp_all add: S_def)
  with assms have "ce \<in> S" by blast
  then show ?thesis by (auto simp: S_def unlinked_def)
qed

lemma find_closest_date_nearest:
  "cs \<noteq> [] \<Longrightarrow>
   \<exists>m. find_closest_date d cs = Some (m, m - d) \<and> m \<in> set cs \<and> (\<forall>c \<in> set cs. \<bar>m - d\<bar> \<le> \<bar>c - d\<bar>)"
proof (induction cs)
  case Nil
  then show ?case by simp
next
  case (Cons c cs)
  show ?case
  proof (cases "cs = []")
    case True
    then show ?thesis by simp
  next
    case False
    with Cons.IH obtain m where m: "find_closest_date d cs = Some (m, m - d)" "m \<in> set cs"
      "\<forall>c' \<in> set cs. \<bar>m - d\<bar> \<le> \<bar>c' - d\<bar>"
      by blast
    show ?thesis
    proof (cases "\<bar>c - d\<bar> \<le> \<bar>m - d\<bar>")
      case True
      with m show ?thesis by (auto intro: order_trans)
    next
      case False
      with m show ?thesis by auto
    qed
  qed
qed

lemma nearest_diff_eq:
  assumes "m \<in> set (map date cals)" and "\<forall>c \<in> set (map date cals). \<bar>m - date cal\<bar> \<le> \<bar>c - date cal\<bar>"
  shows "nearest_diff cal cals = \<bar>m - date cal\<bar>"
  unfolding nearest_diff_def
proof (rule Min_eqI)
  show "finite (set (map (\<lambda>c. \<bar>date c - date cal\<bar>) cals))" by simp
  show "\<bar>m - date cal\<bar> \<le> y" if "y \<in> set (map (\<lambda>c. \<bar>date c - date cal\<bar>) cals)" for y
    using that assms(2) by auto
  show "\<bar>m - date cal\<bar> \<in> set (map (\<lambda>c. \<bar>date c - date cal\<bar>) cals)"
    using assms(1) by auto
qed

lemma match_cals_by_min_cases:
  assumes "cals \<noteq> []"
  shows "(nearest_diff cal cals \<noteq> 0 \<and> nearest_diff cal cals < minutes * 60 \<longrightarrow>
            (\<exists>c. match_cals_by_min cal cals minutes = Some c \<and> c \<in> set cals \<and>
                 \<bar>date c - date cal\<bar> = nearest_diff cal cals))
       \<and> (nearest_diff cal cals = 0 \<or> nearest_diff cal cals \<ge> minutes * 60 \<longrightarrow>
            match_cals_by_min cal cals minutes = None)"
proof -
  from assms have "map date cals \<noteq> []" by simp
  from find_closest_date_nearest [OF this, of "date cal"]
  obtain m where m: "find_closest_date (date cal) (map date cals) = Some (m, m - date cal)"
    "m \<in> set (map date cals)"
    "\<forall>c \<in> set (map date cals). \<bar>m - date cal\<bar> \<le> \<bar>c - date cal\<bar>"
    by blast
  have nd: "nearest_diff cal cals = \<bar>m - date cal\<bar>"
    using nearest_diff_eq [OF m(2) m(3)] .
  from m(2) obtain c0 where "c0 \<in> set cals" "date c0 = m" by auto
  then obtain c where c: "find (\<lambda>c. date c = m) cals = Some c"
    by (cases "find (\<lambda>c. date c = m) cals") (auto simp: find_None_iff)
  then have cm: "c \<in> set cals" "date c = m"
    by (auto simp: find_Some_iff)
  show ?thesis
    using assms m(1) nd c cm
    by (auto simp: match_cals_by_min_def search_for_attr_value_def)
qed

lemma in_set_map_filter:
  "y \<in> set (List.map_filter f xs) \<longleftrightarrow> (\<exists>x \<in> set xs. f x = Some y)"
  by (induction xs) (auto split: option.splits)

lemma match_triple_iff:
  "match_triple l highcals midcals = Some trip \<longleftrightarrow>
   (\<exists>h m. match_cals_by_min l highcals 5 = Some h \<and> match_cals_by_min h midcals 5 = Some m \<and>
      trip = [l, h, m])"
  by (auto simp: match_triple_def split: option.splits)

text \<open>
  The first loop calls the constructor once for each low event with a triple, in the
  order of the low events.
\<close>

lemma match_loop_constructions:
  "match_loop mastercals lowcals highcals midcals =
     foldl append_mastercal mastercals
       (List.map_filter (\<lambda>l. match_triple l highcals midcals) lowcals)"
proof (induction lowcals arbitrary: mastercals)
  case Nil
  then show ?case by (simp add: map_filter_simps)
next
  case (Cons lowcal lowcals)
  then show ?case
    by (cases "match_triple lowcal highcals midcals") (simp_all add: map_filter_simps)
qed

text \<open>
  Claim C4, as the code has it. For a low event and the pool of unlinked high events: with
  no candidate the matcher gives nothing; with candidates whose least absolute time
  difference is not zero, it gives a high event at that least difference when the
  difference is strictly under 5 minutes, and nothing when it is 5 minutes or more. The
  constructor of a MasterCal is called exactly with an unlinked low event, the high event
  matched to it, and the mid event matched to that high event by the same search with the
  same tolerance, once for each such low event.
\<close>

theorem matcher_nearest_within_tolerance:
  "(unlinked cals ''high_std'' = [] \<longrightarrow>
      match_cals_by_min low (unlinked cals ''high_std'') 5 = None) \<and>
   (unlinked cals ''high_std'' \<noteq> [] \<and> nearest_diff low (unlinked cals ''high_std'') \<noteq> 0 \<longrightarrow>
      (nearest_diff low (unlinked cals ''high_std'') < 5 * 60 \<longrightarrow>
         (\<exists>h. match_cals_by_min low (unlinked cals ''high_std'') 5 = Some h \<and>
              h \<in> set (unlinked cals ''high_std'') \<and>
              \<bar>date h - date low\<bar> = nearest_diff low (unlinked cals ''high_std''))) \<and>
      (nearest_diff low (unlinked cals ''high_std'') \<ge> 5 * 60 \<longrightarrow>
         match_cals_by_min low (unlinked cals ''high_std'') 5 = None)) \<and>
   (trip \<in> set (List.map_filter
        (\<lambda>l. match_triple l (unlinked cals ''high_std'') (unlinked cals ''mid_std''))
        (unlinked cals ''low_std'')) \<longleftrightarrow>
      (\<exists>l h m. l \<in> set (unlinked cals ''low_std'') \<and>
         match_cals_by_min l (unlinked cals ''high_std'') 5 = Some h \<and>
         match_cals_by_min h (unlinked cals ''mid_std'') 5 = Some m \<and>
         trip = [l, h, m])) \<and>
   match_loop [] (unlinked cals ''low_std'') (unlinked cals ''high_std'')
       (unlinked cals ''mid_std'') =
     foldl append_mastercal []
       (List.map_filter
          (\<lambda>l. match_triple l (unlinked cals ''high_std'') (unlinked cals ''mid_std''))
          (unlinked cals ''low_std''))"
proof -
  have a: "unlinked cals ''high_std'' = [] \<longrightarrow>
      match_cals_by_min low (unlinked cals ''high_std'') 5 = None"
    by (simp add: match_cals_by_min_def)
  have b: "unlinked cals ''high_std'' \<noteq> [] \<and> nearest_diff low (unlinked cals ''high_std'') \<noteq> 0 \<longrightarrow>
      (nearest_diff low (unlinked cals ''high_std'') < 5 * 60 \<longrightarrow>
         (\<exists>h. match_cals_by_min low (unlinked cals ''high_std'') 5 = Some h \<and>
              h \<in> set (unlinked cals ''high_std'') \<and>
              \<bar>date h - date low\<bar> = nearest_diff low (unlinked cals ''high_std''))) \<and>
      (nearest_diff low (unlinked cals ''high_std'') \<ge> 5 * 60 \<longrightarrow>
         match_cals_by_min low (unlinked cals ''high_std'') 5 = None)"
    using match_cals_by_min_cases [of "unlinked cals ''high_std''" low 5] by blast
  have c: "trip \<in> set (List.map_filter
        (\<lambda>l. match_triple l (unlinked cals ''high_std'') (unlinked cals ''mid_std''))
        (unlinked cals ''low_std'')) \<longleftrightarrow>
      (\<exists>l h m. l \<in> set (unlinked cals ''low_std'') \<and>
         match_cals_by_min l (unlinked cals ''high_std'') 5 = Some h \<and>
         match_cals_by_min h (unlinked cals ''mid_std'') 5 = Some m \<and>
         trip = [l, h, m])"
    by (auto simp: in_set_map_filter match_triple_iff)
  from a b c match_loop_constructions show ?thesis by blast
qed

theorem matcher_nearest_within_tolerance_witness:
  "unlinked example_cals ''high_std'' = [example_high] \<and>
   nearest_diff example_low (unlinked example_cals ''high_std'') = 180 \<and>
   match_cals_by_min example_low (unlinked example_cals ''high_std'') 5 = Some example_high \<and>
   [example_low, example_high, example_mid]
     \<in> set (List.map_filter
         (\<lambda>l. match_triple l (unlinked example_cals ''high_std'') (unlinked example_cals ''mid_std''))
         (unlinked example_cals ''low_std''))"
proof -
  have h: "unlinked example_cals ''high_std'' = [example_high]"
    by (simp add: unlinked_def example_cals_def example_event_def example_high_def)
  have l: "unlinked example_cals ''low_std'' = [example_low]"
    by (simp add: unlinked_def example_cals_def example_event_def example_low_def)
  have m: "unlinked example_cals ''mid_std'' = [example_mid]"
    by (simp add: unlinked_def example_cals_def example_event_def example_mid_def)
  have n: "nearest_diff example_low [example_high] = 180"
    by (simp add: nearest_diff_def example_event_def example_low_def example_high_def)
  have mh: "match_cals_by_min example_low [example_high] 5 = Some example_high"
    by (simp add: match_cals_by_min_def search_for_attr_value_def example_event_def
        example_low_def example_high_def)
  have mm: "match_cals_by_min example_high [example_mid] 5 = Some example_mid"
    by (simp add: match_cals_by_min_def search_for_attr_value_def example_event_def
        example_mid_def example_high_def)
  show ?thesis
    using matcher_nearest_within_tolerance [of example_cals example_low
        "[example_low, example_high, example_mid]"]
    by (simp add: h l m n mh mm)
qed

text \<open>
  Claim C4 as stated fails at a difference of exactly 5 minutes: the only high candidate
  is 300 seconds from the low event, which does not exceed the tolerance, and the low
  event is skipped.
\<close>

theorem matcher_skips_at_exact_tolerance:
  "match_cals_by_min (example_event 0 ''low_std'' 69.8) [example_event 300 ''high_std'' 174.4] 5
     = None \<and>
   \<not> \<bar>date (example_event 300 ''high_std'' 174.4) - date (example_event 0 ''low_std'' 69.8)\<bar>
       > 5 * 60"
  by (simp add: match_cals_by_min_def example_event_def)

text \<open>A round of \<^verbatim>\<open>create_mastercals\<close> that returns has stored no MasterCal.\<close>

lemma create_curves_never_returns: "mastercals \<noteq> [] \<Longrightarrow> \<exists>e. create_curves mastercals = Inl e"
proof (cases mastercals)
  case Nil
  assume "mastercals \<noteq> []"
  with Nil show ?thesis by simp
next
  case (Cons mc mcs)
  from create_curve_never_returns [of standards mc] obtain e where "create_curve mc = Inl e"
    by (auto simp: create_curve_def)
  with Cons show ?thesis by simp
qed

lemma create_mastercals_stores_nothing: "create_mastercals cals = Inr stored \<Longrightarrow> stored = []"
proof -
  assume r: "create_mastercals cals = Inr stored"
  define mastercals where "mastercals = match_loop [] (unlinked cals ''low_std'')
    (unlinked cals ''high_std'') (unlinked cals ''mid_std'')"
  show ?thesis
  proof (cases "mastercals = []")
    case True
    with r show ?thesis by (simp add: create_mastercals_def mastercals_def)
  next
    case False
    with create_curves_never_returns obtain e where "create_curves mastercals = Inl e"
      by blast
    with False r show ?thesis
      by (simp add: create_mastercals_def mastercals_def [symmetric])
  qed
qed

text \<open>
  Claim C5, at two unlinked low events 100 seconds apart with one high and one mid event
  near both. The searches give both low events the same high and mid events. The
  constructor of the second MasterCal takes these two out of the first, which is left
  with its low event alone; its curve fit finds no high subcal and raises AttributeError,
  and the round ends in that exception with nothing stored.
\<close>

theorem matcher_takes_subcals_of_first_mastercal:
  "date reuse_low = 0 \<and> date reuse_low_later = 100 \<and> date reuse_high = 200 \<and>
   date reuse_mid = 300 \<and>
   match_triple reuse_low (unlinked reuse_cals ''high_std'') (unlinked reuse_cals ''mid_std'')
     = Some [reuse_low, reuse_high, reuse_mid] \<and>
   match_triple reuse_low_later (unlinked reuse_cals ''high_std'') (unlinked reuse_cals ''mid_std'')
     = Some [reuse_low_later, reuse_high, reuse_mid] \<and>
   map subcals (match_loop [] (unlinked reuse_cals ''low_std'') (unlinked reuse_cals ''high_std'')
                  (unlinked reuse_cals ''mid_std''))
     = [[reuse_low], [reuse_low_later, reuse_high, reuse_mid]] \<and>
   result_mean (find_cal_by_type [reuse_low] ''high_std'') CO = Inl AttributeError \<and>
   create_mastercals reuse_cals = Inl AttributeError"
proof -
  have d: "date reuse_low = 0" "date reuse_low_later = 100" "date reuse_high = 200"
    "date reuse_mid = 300"
    by (simp_all add: reuse_low_def reuse_low_later_def reuse_high_def reuse_mid_def
        example_event_def)
  have st: "standard_used reuse_low = ''low_std''" "standard_used reuse_low_later = ''low_std''"
    "standard_used reuse_high = ''high_std''" "standard_used reuse_mid = ''mid_std''"
    "mastercal_id reuse_low = None" "mastercal_id reuse_low_later = None"
    "mastercal_id reuse_high = None" "mastercal_id reuse_mid = None"
    by (simp_all add: reuse_low_def reuse_low_later_def reuse_high_def reuse_mid_def
        example_event_def)
  have ne: "reuse_low \<noteq> reuse_low_later" "reuse_low \<noteq> reuse_high" "reuse_low \<noteq> reuse_mid"
    using d by auto
  have l: "unlinked reuse_cals ''low_std'' = [reuse_low, reuse_low_later]"
    and h: "unlinked reuse_cals ''high_std'' = [reuse_high]"
    and m: "unlinked reuse_cals ''mid_std'' = [reuse_mid]"
    by (simp_all add: unlinked_def reuse_cals_def st)
  have t1: "match_triple reuse_low [reuse_high] [reuse_mid] = Some [reuse_low, reuse_high, reuse_mid]"
    by (simp add: match_triple_def match_cals_by_min_def search_for_attr_value_def d)
  have t2: "match_triple reuse_low_later [reuse_high] [reuse_mid]
      = Some [reuse_low_later, reuse_high, reuse_mid]"
    by (simp add: match_triple_def match_cals_by_min_def search_for_attr_value_def d)
  define first_mc where "first_mc = release [reuse_low_later, reuse_high, reuse_mid]
    (MasterCal_init [reuse_low, reuse_high, reuse_mid])"
  have loop: "match_loop [] (unlinked reuse_cals ''low_std'') (unlinked reuse_cals ''high_std'')
      (unlinked reuse_cals ''mid_std'')
     = [first_mc, MasterCal_init [reuse_low_later, reuse_high, reuse_mid]]"
    unfolding l h m by (simp add: t1 t2 append_mastercal_def first_mc_def)
  have s1: "subcals first_mc = [reuse_low]"
    using ne by (simp add: first_mc_def release_def MasterCal_init_def)
  have rm: "result_mean (find_cal_by_type [reuse_low] ''high_std'') CO = Inl AttributeError"
    by (simp add: result_mean_def find_cal_by_type_def st)
  have lo: "\<exists>v. result_mean (find_cal_by_type [reuse_low] ''low_std'') CO = Inr v"
    by (simp add: result_mean_def find_cal_by_type_def st reuse_low_def example_event_def)
  then have "create_curve first_mc = Inl AttributeError"
    using rm
    by (auto simp: create_curve_def create_curve_with_def create_curve_cpd_def s1)
  then have "create_mastercals reuse_cals = Inl AttributeError"
    by (simp add: create_mastercals_def loop)
  moreover have "map subcals (match_loop [] (unlinked reuse_cals ''low_std'')
      (unlinked reuse_cals ''high_std'') (unlinked reuse_cals ''mid_std''))
     = [[reuse_low], [reuse_low_later, reuse_high, reuse_mid]]"
    by (simp add: loop s1 MasterCal_init_def)
  ultimately show ?thesis
    using t1 t2 rm d by (simp add: h m)
qed

section \<open>Properties of the flush filter\<close>

text \<open>
  Claim C3, as the code has it. The filter returns a store of the same length in which
  every ambient Datum (valve position 1) dated after the last Datum of the event and at
  most 60 seconds after it has the instrument status 999, which is not the good-data code
  963, and nothing else changed; every Datum dated at or before the end of the event, or
  more than 60 seconds after it, is as it was.
\<close>

theorem filter_postcal_data_window:
  assumes "data cal \<noteq> []"
  shows "\<exists>store'. filter_postcal_data cal store = Inr store' \<and> length store' = length store \<and>
     (\<forall>i < length store.
        (mpv_position (store ! i) = 1 \<and> datum_date (last (data cal)) < datum_date (store ! i)
           \<and> datum_date (store ! i) \<le> datum_date (last (data cal)) + 60 \<longrightarrow>
         store' ! i = (store ! i)\<lparr>instrument_status := 999\<rparr> \<and> instrument_status (store' ! i) \<noteq> 963)
      \<and> (datum_date (store ! i) \<le> datum_date (last (data cal))
           \<or> datum_date (store ! i) > datum_date (last (data cal)) + 60 \<longrightarrow>
         store' ! i = store ! i))"
  using assms by (auto simp: filter_postcal_data_def Let_def)

theorem filter_postcal_data_window_witness:
  "data flush_event \<noteq> [] \<and>
   filter_postcal_data flush_event [example_datum 3 130 1 400, example_datum 4 161 1 400]
     = Inr [(example_datum 3 130 1 400)\<lparr>instrument_status := 999\<rparr>, example_datum 4 161 1 400]"
proof -
  have h: "data flush_event \<noteq> []"
    by (simp add: flush_event_def event_of_def)
  show ?thesis
    using filter_postcal_data_window [OF h, of "[example_datum 3 130 1 400, example_datum 4 161 1 400]"]
    by (simp add: filter_postcal_data_def flush_event_def event_of_def example_datum_def)
qed

text \<open>
  Claim C3 as stated fails at the end of the minute: an ambient Datum exactly 60 seconds
  after the event is not strictly inside the window, and it is marked.
\<close>

theorem filter_postcal_data_marks_end_of_minute:
  "filter_postcal_data flush_event [example_datum 3 160 1 400]
     = Inr [(example_datum 3 160 1 400)\<lparr>instrument_status := 999\<rparr>] \<and>
   date flush_event = 100 \<and>
   \<not> datum_date (example_datum 3 160 1 400) < date flush_event + 60"
  by (simp add: filter_postcal_data_def flush_event_def event_of_def example_datum_def)

text \<open>
  The query of the filter does not read the valve position: a Datum of the high standard
  inside the window is marked as well.
\<close>

lemma filter_postcal_data_marks_other_valves:
  "filter_postcal_data flush_event [example_datum 3 130 3 400]
     = Inr [(example_datum 3 130 3 400)\<lparr>instrument_status := 999\<rparr>]"
  by (simp add: filter_postcal_data_def flush_event_def event_of_def example_datum_def)

section \<open>Properties of ingestion\<close>

lemma add_rows_eq:
  "add_rows db_dates fid ds store =
     store @ map (\<lambda>d. d\<lparr>file_id := Some fid\<rparr>) (filter (\<lambda>d. datum_date d \<notin> set db_dates) ds)"
  by (induction ds arbitrary: store) auto

lemma load_files_eq:
  "load_files db_dates files store =
     store @ concat (map (\<lambda>(fid, ds). map (\<lambda>d. d\<lparr>file_id := Some fid\<rparr>)
                                        (filter (\<lambda>d. datum_date d \<notin> set db_dates) ds)) files)"
  by (induction files arbitrary: store) (auto simp: add_rows_eq)

text \<open>
  What the check against \<^verbatim>\<open>db_dates\<close> does give: no row added in a round has a date that
  was in the store when the round began.
\<close>

lemma check_load_new_data_skips_stored:
  "\<exists>added. check_load_new_data store files = store @ added \<and>
     (\<forall>d \<in> set added. datum_date d \<notin> set (map datum_date store))"
  by (auto simp: check_load_new_data_def load_files_eq)

text \<open>
  Claim C9, at an empty store: two rows of one file with the same timestamp are both
  added, and so is the same row coming from two files of one round, since \<^verbatim>\<open>db_dates\<close>
  is not brought up to date as rows are added.
\<close>

theorem check_load_new_data_accepts_duplicates:
  "map datum_date (check_load_new_data []
      [(1, [example_datum 0 100 1 400, example_datum 0 100 1 401])]) = [100, 100] \<and>
   map datum_date (check_load_new_data []
      [(1, [example_datum 0 100 1 400]), (2, [example_datum 0 100 1 400])]) = [100, 100]"
  by (simp add: check_load_new_data_def example_datum_def)

section \<open>Properties of the segmentation\<close>

text \<open>
  The position \<open>num\<close> of the enumeration stays under \<^verbatim>\<open>len(indices)\<close>, so the round that
  would append the rows after the last break is never taken.
\<close>

lemma event_loop_slices:
  "num + length inds = n \<Longrightarrow> event_loop n num prev_ind inds rows = slices prev_ind inds rows"
proof (induction inds arbitrary: num prev_ind)
  case Nil
  then show ?case by simp
next
  case (Cons ind inds)
  then have "num \<noteq> n" by auto
  moreover have "event_loop n (Suc num) ind inds rows = slices ind inds rows"
    using Cons.prems by (intro Cons.IH) auto
  ultimately show ?case by simp
qed

lemma find_cal_indices_Nil [simp]: "find_cal_indices [] = []"
  by (simp add: find_cal_indices_def)

lemma find_cal_indices_single [simp]: "find_cal_indices [t] = []"
  by (simp add: find_cal_indices_def)

lemma find_cal_indices_Cons2 [simp]:
  "find_cal_indices (t # t' # ts) =
     (if t' - t > 60 then [Suc 0] else []) @ map Suc (find_cal_indices (t' # ts))"
proof -
  define rest where "rest = map (\<lambda>(a, b). Some (b - a)) (zip (t' # ts) ts)"
  define P where "P = (\<lambda>d. case d of None \<Rightarrow> False | Some (v::real) \<Rightarrow> v > 60)"
  have d: "diff_series (t # t' # ts) = None # Some (t' - t) # rest"
    and d': "diff_series (t' # ts) = None # rest"
    by (simp_all add: rest_def)
  have up: "[0..<Suc (Suc (length rest))] = 0 # Suc 0 # map Suc [Suc 0..<Suc (length rest)]"
    by (simp add: upt_conv_Cons map_Suc_upt del: upt_Suc)
  have up': "[0..<Suc (length rest)] = 0 # [Suc 0..<Suc (length rest)]"
    by (simp add: upt_conv_Cons del: upt_Suc)
  have l: "find_cal_indices (t # t' # ts) =
      (if t' - t > 60 then [Suc 0] else [])
        @ map Suc (filter (\<lambda>i. P ((None # Some (t' - t) # rest) ! Suc i)) [Suc 0..<Suc (length rest)])"
    unfolding find_cal_indices_def d Let_def
    by (simp add: up P_def filter_map comp_def del: upt_Suc)
  have r: "find_cal_indices (t' # ts) = filter (\<lambda>i. P ((None # rest) ! i)) [Suc 0..<Suc (length rest)]"
    unfolding find_cal_indices_def d' Let_def
    by (simp add: up' P_def del: upt_Suc)
  have "filter (\<lambda>i. P ((None # Some (t' - t) # rest) ! Suc i)) [Suc 0..<Suc (length rest)]
      = filter (\<lambda>i. P ((None # rest) ! i)) [Suc 0..<Suc (length rest)]"
    by (rule filter_cong) (auto simp: nth_Cons')
  with l r show ?thesis by simp
qed

lemma iloc_Cons_Suc [simp]: "iloc (r # rows) (Suc p) (Suc i) = iloc rows p i"
  by (simp add: iloc_def)

lemma iloc_Cons_0 [simp]: "iloc (r # rows) 0 (Suc i) = r # iloc rows 0 i"
  by (simp add: iloc_def)

lemma slices_shift: "slices (Suc p) (map Suc inds) (r # rows) = slices p inds rows"
  by (induction inds arbitrary: p) simp_all

lemma maximal_runs_nonempty: "rows \<noteq> [] \<Longrightarrow> maximal_runs rows \<noteq> []"
  by (induction rows rule: maximal_runs.induct) (auto split: list.splits)

lemma slices_maximal_runs:
  "slices 0 (find_cal_indices (map snd rows)) rows = butlast (maximal_runs rows)"
proof (induction rows rule: maximal_runs.induct)
  case 1
  then show ?case by simp
next
  case (2 r)
  then show ?case by simp
next
  case (3 r r' rs)
  define inds where "inds = find_cal_indices (map snd (r' # rs))"
  have ne: "maximal_runs (r' # rs) \<noteq> []"
    by (rule maximal_runs_nonempty) simp
  show ?case
  proof (cases "snd r' - snd r > 60")
    case True
    with 3 ne show ?thesis
      by (simp add: slices_shift iloc_def)
  next
    case False
    from ne obtain g gs where runs: "maximal_runs (r' # rs) = g # gs"
      by (cases "maximal_runs (r' # rs)") auto
    from False 3 have IH: "slices 0 inds (r' # rs) = butlast (g # gs)"
      by (simp add: inds_def runs)
    show ?thesis
    proof (cases inds)
      case Nil
      with IH have "gs = []" by (simp split: if_splits)
      with False Nil runs show ?thesis
        using inds_def by simp
    next
      case (Cons i is')
      with IH have gs: "gs \<noteq> []" and g: "g = iloc (r' # rs) 0 i"
        and rest: "slices i is' (r' # rs) = butlast gs"
        by (auto split: if_splits)
      have "find_cal_indices (map snd (r # r' # rs)) = Suc i # map Suc is'"
        using False Cons inds_def by simp
      then show ?thesis
        using False runs gs g rest by (simp add: slices_shift)
    qed
  qed
qed

text \<open>The rows of the events are the maximal runs but the last.\<close>

lemma cal_event_rows_butlast: "cal_event_rows rows = butlast (maximal_runs rows)"
proof (cases "find_cal_indices (map snd rows) = []")
  case True
  then have "cal_event_rows rows = slices 0 (find_cal_indices (map snd rows)) rows"
    by (simp add: cal_event_rows_def)
  then show ?thesis by (simp add: slices_maximal_runs)
next
  case False
  then have "cal_event_rows rows = slices 0 (find_cal_indices (map snd rows)) rows"
    by (simp add: cal_event_rows_def Let_def event_loop_slices)
  then show ?thesis by (simp add: slices_maximal_runs)
qed

lemma concat_maximal_runs: "concat (maximal_runs rows) = rows"
  by (induction rows rule: maximal_runs.induct)
     (auto simp: maximal_runs_nonempty split: list.splits)

lemma maximal_runs_no_empty_run: "[] \<notin> set (maximal_runs rows)"
  by (induction rows rule: maximal_runs.induct)
     (auto simp: maximal_runs_nonempty split: list.splits)

text \<open>
  The runs split the rows, none is empty, the gaps inside a run are at most 60 seconds and
  the gap between a run and the next is over 60 seconds.
\<close>

lemma hd_maximal_runs: "\<exists>g gs. maximal_runs (r # rs) = (r # g) # gs"
  by (induction "r # rs" arbitrary: r rs rule: maximal_runs.induct)
     (auto split: list.splits)

lemma maximal_runs_gaps_within:
  "g \<in> set (maximal_runs rows) \<Longrightarrow> Suc i < length g \<Longrightarrow> snd (g ! Suc i) - snd (g ! i) \<le> 60"
proof (induction rows arbitrary: g i rule: maximal_runs.induct)
  case 1
  then show ?case by simp
next
  case (2 r)
  then show ?case by simp
next
  case (3 r r' rs)
  obtain g' gs where runs: "maximal_runs (r' # rs) = (r' # g') # gs"
    using hd_maximal_runs by blast
  show ?case
  proof (cases "snd r' - snd r > 60")
    case True
    with 3 show ?thesis by auto
  next
    case False
    with "3.prems" runs have "g = r # r' # g' \<or> g \<in> set gs"
      by auto
    then show ?thesis
    proof
      assume g: "g = r # r' # g'"
      show ?thesis
      proof (cases i)
        case 0
        with g False show ?thesis by simp
      next
        case (Suc j)
        with g "3.prems"(2) have "Suc j < length (r' # g')" by simp
        moreover have "r' # g' \<in> set (maximal_runs (r' # rs))" by (simp add: runs)
        ultimately have "snd ((r' # g') ! Suc j) - snd ((r' # g') ! j) \<le> 60"
          using "3.IH"(2) False by blast
        with g Suc show ?thesis by simp
      qed
    next
      assume "g \<in> set gs"
      then have "g \<in> set (maximal_runs (r' # rs))" by (simp add: runs)
      with "3.IH"(2) False "3.prems"(2) show ?thesis by blast
    qed
  qed
qed

lemma maximal_runs_breaks:
  "Suc k < length (maximal_runs rows) \<Longrightarrow>
   snd (hd (maximal_runs rows ! Suc k)) - snd (last (maximal_runs rows ! k)) > 60"
proof (induction rows arbitrary: k rule: maximal_runs.induct)
  case 1
  then show ?case by simp
next
  case (2 r)
  then show ?case by simp
next
  case (3 r r' rs)
  obtain g' gs where runs: "maximal_runs (r' # rs) = (r' # g') # gs"
    using hd_maximal_runs by blast
  show ?case
  proof (cases "snd r' - snd r > 60")
    case True
    show ?thesis
    proof (cases k)
      case 0
      with True runs show ?thesis by simp
    next
      case (Suc j)
      with True "3.prems" "3.IH"(1) [of j] show ?thesis by simp
    qed
  next
    case False
    show ?thesis
    proof (cases k)
      case 0
      with False runs "3.prems" "3.IH"(2) [of 0] show ?thesis by simp
    next
      case (Suc j)
      with False runs "3.prems" "3.IH"(2) [of k] show ?thesis by simp
    qed
  qed
qed

text \<open>The data of the events are the rows of the store with the keys of the slices.\<close>

lemma make_events_data:
  "make_events store standard sls = Inr evs \<Longrightarrow>
   map data evs = map (\<lambda>sl. query_ids store (map fst sl)) sls"
proof (induction sls arbitrary: evs)
  case Nil
  then show ?case by simp
next
  case (Cons sl sls)
  then show ?case
    by (auto simp: e_bind_def CalEvent_init_def split: sum.splits if_splits)
qed

text \<open>
  Claim C1, as the code has it. Over the rows of one standard sorted by date, every
  candidate event is a maximal run (a stretch with gaps of at most 60 seconds between two
  gaps of more than 60 seconds), every maximal run that a break follows is a candidate
  event, in order, and when there is no break there is no candidate event.
\<close>

theorem segmentation_runs_before_a_break:
  "set (cal_event_rows rows) \<subseteq> set (maximal_runs rows) \<and>
   (\<forall>k. Suc k < length (maximal_runs rows) \<longrightarrow>
      k < length (cal_event_rows rows) \<and> cal_event_rows rows ! k = maximal_runs rows ! k) \<and>
   (find_cal_indices (map snd rows) = [] \<longrightarrow> cal_event_rows rows = [])"
proof -
  have "set (cal_event_rows rows) \<subseteq> set (maximal_runs rows)"
    by (auto simp: cal_event_rows_butlast dest: in_set_butlastD)
  moreover have "k < length (cal_event_rows rows) \<and> cal_event_rows rows ! k = maximal_runs rows ! k"
    if "Suc k < length (maximal_runs rows)" for k
    using that by (simp add: cal_event_rows_butlast nth_butlast)
  moreover have "find_cal_indices (map snd rows) = [] \<longrightarrow> cal_event_rows rows = []"
    by (simp add: cal_event_rows_def)
  ultimately show ?thesis by blast
qed

theorem segmentation_runs_before_a_break_witness:
  "maximal_runs example_rows = [[(1, 0), (2, 45)], [(3, 200), (4, 230)], [(5, 400)]] \<and>
   cal_event_rows example_rows ! 0 = [(1, 0), (2, 45)] \<and>
   cal_event_rows example_rows ! 1 = [(3, 200), (4, 230)]"
proof -
  have r: "maximal_runs example_rows = [[(1, 0), (2, 45)], [(3, 200), (4, 230)], [(5, 400)]]"
    by (simp add: example_rows_def)
  show ?thesis
    using segmentation_runs_before_a_break [of example_rows] r
    by (auto simp: nth_Cons')
qed

text \<open>
  Claim C1 as stated fails without a break: two rows 45 seconds apart are one maximal run,
  and no candidate event is made of it.
\<close>

theorem segmentation_drops_sole_run:
  "maximal_runs [(1, 0), (2, 45)] = [[(1, 0), (2, 45)]] \<and> cal_event_rows [(1, 0), (2, 45)] = []"
  by (simp add: cal_event_rows_def)

text \<open>
  With one break the rows before it are a candidate event; the row after it is a run of
  its own and is in no candidate event of this round.
\<close>

lemma segmentation_drops_final_run:
  "maximal_runs [(1, 0), (2, 45), (3, 200)] = [[(1, 0), (2, 45)], [(3, 200)]] \<and>
   cal_event_rows [(1, 0), (2, 45), (3, 200)] = [[(1, 0), (2, 45)]]"
  by (simp add: cal_event_rows_def iloc_def)

section \<open>The discard rule on the events of the segmentation\<close>

text \<open>
  Claim C7, at a store of four low-standard Datums with the keys 2, 4, 5, 6 dated 90, 0,
  45 and 300. Sorted by date, the first three are a run of 90 seconds, ended by the gap to
  the fourth. The query for the data of the event has no order, the rows come back by
  key, dated 90, 0, 45: the date of the event is 45, the first date 90, and the event is
  tagged \<^verbatim>\<open>'dump'\<close> although its last timestamp minus its first is not under 90 seconds.
\<close>

theorem find_cal_events_tags_ninety_second_run:
  "sort_key snd (select_mpv key_order_store 2) = [(4, 0), (5, 45), (2, 90), (6, 300)] \<and>
   cal_event_rows [(4, 0), (5, 45), (2, 90), (6, 300)] = [[(4, 0), (5, 45), (2, 90)]] \<and>
   \<not> (90 :: real) - 0 < 90 \<and>
   find_cal_events_standard key_order_store 2 ''low_std'' =
     Inr [(event_of [example_datum 2 90 2 70, example_datum 4 0 2 70, example_datum 5 45 2 70]
             ''low_std'')\<lparr>standard_used := ''dump''\<rparr>]"
proof -
  have sel: "select_mpv key_order_store 2 = [(2, 90), (4, 0), (5, 45), (6, 300)]"
    by (simp add: select_mpv_def key_order_store_def example_datum_def)
  have srt: "sort_key snd [(2 :: nat, 90 :: real), (4, 0), (5, 45), (6, 300)]
      = [(4, 0), (5, 45), (2, 90), (6, 300)]"
    by simp
  have rows: "cal_event_rows [(4 :: nat, 0 :: real), (5, 45), (2, 90), (6, 300)]
      = [[(4, 0), (5, 45), (2, 90)]]"
    by (simp add: cal_event_rows_def iloc_def)
  have q: "query_ids key_order_store [4, 5, 2]
      = [example_datum 2 90 2 70, example_datum 4 0 2 70, example_datum 5 45 2 70]"
    by (simp add: query_ids_def key_order_store_def example_datum_def)
  have ev: "make_events key_order_store ''low_std'' [[(4, 0), (5, 45), (2, 90)]]
      = Inr [event_of [example_datum 2 90 2 70, example_datum 4 0 2 70, example_datum 5 45 2 70]
               ''low_std'']"
    by (simp add: q CalEvent_init_def event_of_def e_bind_def)
  have qu: "quantify_event
      (event_of [example_datum 2 90 2 70, example_datum 4 0 2 70, example_datum 5 45 2 70]
         ''low_std'')
      = Inr ((event_of [example_datum 2 90 2 70, example_datum 4 0 2 70, example_datum 5 45 2 70]
         ''low_std'')\<lparr>standard_used := ''dump''\<rparr>)"
    by (simp add: quantify_event_def dates_def event_of_def example_datum_def)
  have "find_cal_events_standard key_order_store 2 ''low_std'' =
     Inr [(event_of [example_datum 2 90 2 70, example_datum 4 0 2 70, example_datum 5 45 2 70]
             ''low_std'')\<lparr>standard_used := ''dump''\<rparr>]"
    unfolding find_cal_events_standard_def sel Let_def srt rows ev
    by (simp add: qu e_bind_def)
  with sel srt rows show ?thesis by simp
qed

end
